theory Spec2Isabelle
  imports Complex_Main
begin

section \<open>Data model\<close>

text \<open>
  The bookstore backend keeps three collections: books, carts (one per user) and orders.
  JavaScript numbers that hold amounts of money are modelled as exact reals (the binary
  rounding of IEEE-754 doubles is not modelled), quantities, stock counts and page numbers
  as integers, and points in time as integers (milliseconds since the epoch).
\<close>

type_synonym book_id = nat
type_synonym user_id = nat
type_synonym order_id = nat
type_synonym time = int

datatype paymentStatus = payment_pending | payment_completed | payment_failed | payment_refunded

datatype orderStatus = pending | confirmed | processing | shipped | delivered | cancelled

text \<open>
  Modelled from the spec: the book model (models/book.js) is not among the sources; of
  its fields the order controller reads \<open>title\<close>, \<open>author\<close> and \<open>stock\<close> and writes
  \<open>stock\<close>.
\<close>

record book =
  title :: string
  author :: string
  stock :: int

text \<open>
  Modelled from the spec: the cart model (models/cart.js) is not among the sources; a
  cart line references a book and carries the quantity and the price captured when the
  line was added, and the cart carries the lines and a running total. The reference
  \<open>bookId\<close> is a book identifier in a stored cart; in a populated cart it is the
  referenced book document with its identifier, or null (\<open>None\<close>).
\<close>

record 'b cartItem =
  bookId :: 'b
  quantity :: int
  price :: real

record 'b cart =
  items :: "'b cartItem list"
  total :: real

text \<open>
  The schemas of models/order.js. Of the two timestamps that the schema option
  \<^verbatim>\<open>timestamps\<close> maintains, the model keeps \<open>createdAt\<close>, which the code reads;
  \<open>updatedAt\<close>, which no code reads, is left out. The identifier \<^verbatim>\<open>_id\<close> is \<open>oid\<close>.
\<close>

record orderItem =
  bookId :: book_id
  title :: string
  author :: string
  quantity :: int
  price :: real
  subtotal :: real

record shippingAddress =
  fullName :: string
  phoneNumber :: string
  address :: string
  city :: string
  state :: string
  zipCode :: string
  country :: string

record order =
  oid :: order_id
  userId :: user_id
  orderNumber :: string
  items :: "orderItem list"
  shippingAddress :: shippingAddress
  paymentMethod :: string
  paymentStatus :: paymentStatus
  orderStatus :: orderStatus
  subtotal :: real
  tax :: real
  shippingCost :: real
  total :: real
  notes' :: "string option"
  cancelledAt :: "time option"
  deliveredAt :: "time option"
  createdAt :: time

section \<open>Order cost calculator (models/order.js)\<close>

text \<open>
  \<^verbatim>\<open>parseFloat(x.toFixed(f))\<close>: \<^verbatim>\<open>toFixed\<close> picks the integer \<open>n\<close> for which
  \<open>n / 10^f\<close> is closest to \<open>x\<close>, the larger \<open>n\<close> on a tie, after taking the sign
  of a negative \<open>x\<close> out; \<^verbatim>\<open>parseFloat\<close> reads the decimal back.
\<close>

definition toFixed :: "real \<Rightarrow> nat \<Rightarrow> real" where
  "toFixed x f =
     (if x < 0 then - (of_int \<lfloor>(- x) * 10 ^ f + 1 / 2\<rfloor> / 10 ^ f)
      else of_int \<lfloor>x * 10 ^ f + 1 / 2\<rfloor> / 10 ^ f)"

text \<open>
  The methods assign to fields of \<open>this\<close> and return the assigned value; each is
  modelled as the function from \<open>this\<close> to the updated \<open>this\<close>.
\<close>

definition calculateSubtotal :: "order \<Rightarrow> order" where
  "calculateSubtotal this =
     this\<lparr>subtotal := foldl (\<lambda>acc item. acc + orderItem.subtotal item) 0 (order.items this)\<rparr>"

definition calculateTax :: "real \<Rightarrow> order \<Rightarrow> order" where
  "calculateTax taxRate this = this\<lparr>tax := toFixed (subtotal this * taxRate) 2\<rparr>"

definition calculateShippingCost :: "real \<Rightarrow> order \<Rightarrow> order" where
  "calculateShippingCost freeShippingThreshold this =
     this\<lparr>shippingCost := (if subtotal this \<ge> freeShippingThreshold then 0 else 199)\<rparr>"

definition calculateTotal :: "order \<Rightarrow> order" where
  "calculateTotal this =
     this\<lparr>order.total := toFixed (subtotal this + tax this + shippingCost this) 2\<rparr>"

text \<open>The \<open>options\<close> argument: a field left out takes its default in the destructuring.\<close>

record options =
  taxRate :: "real option"
  freeShippingThreshold :: "real option"

definition optTaxRate :: "options \<Rightarrow> real" where
  "optTaxRate opts = (case taxRate opts of None \<Rightarrow> 8 / 100 | Some r \<Rightarrow> r)"

definition optFreeShippingThreshold :: "options \<Rightarrow> real" where
  "optFreeShippingThreshold opts = (case freeShippingThreshold opts of None \<Rightarrow> 50 | Some t \<Rightarrow> t)"

definition noOptions :: options where
  "noOptions = \<lparr>taxRate = None, freeShippingThreshold = None\<rparr>"

definition calculateOrderCosts :: "options \<Rightarrow> order \<Rightarrow> order" where
  "calculateOrderCosts opts this =
     calculateTotal
       (calculateShippingCost (optFreeShippingThreshold opts)
          (calculateTax (optTaxRate opts)
             (calculateSubtotal this)))"

definition canBeCancelled :: "order \<Rightarrow> bool" where
  "canBeCancelled this = (orderStatus this \<notin> set [delivered, cancelled])"

text \<open>
  \<^verbatim>\<open>canBeRefunded\<close> reads the clock (\<^verbatim>\<open>Date.now()\<close>), here the argument \<open>now\<close>. It
  returns its verdict together with \<open>this\<close> as the method leaves it.
\<close>

definition canBeRefunded :: "time \<Rightarrow> order \<Rightarrow> bool \<times> order" where
  "canBeRefunded now this =
     (let refundWindow = 30 * 24 * 60 * 60 * 1000;
          orderAge = now - createdAt this
      in (orderStatus this = delivered \<and> paymentStatus this = payment_completed
            \<and> orderAge \<le> refundWindow,
          this))"

text \<open>The pre-save hook.\<close>

definition preSave :: "order \<Rightarrow> order" where
  "preSave this =
     (if length (order.items this) > 0 \<and> subtotal this = 0
      then calculateOrderCosts noOptions this else this)"

section \<open>Pagination metadata\<close>





section \<open>The database and the order controller (controllers/orderController.js)\<close>

record db =
  books :: "book_id \<rightharpoonup> book"
  carts :: "user_id \<rightharpoonup> book_id cart"
  orders :: "order list"

datatype code =
  MISSING_FIELDS | EMPTY_CART | BOOK_NOT_FOUND | INSUFFICIENT_STOCK | ORDER_NOT_FOUND
  | INVALID_ORDER_STATUS | INVALID_STATUS | INTERNAL_SERVER_ERROR

text \<open>A response is the HTTP status with the order sent back, or with the error code.\<close>

datatype response = Success nat order | Failure nat code

subsection \<open>Saving an order document\<close>

text \<open>
  The validators of the order schema: \<^verbatim>\<open>required\<close> strings are non-empty, numbers
  respect their \<^verbatim>\<open>min\<close>, the payment method is one of the enumerated ones and the
  notes respect \<^verbatim>\<open>maxlength\<close>. The two status fields are enumerations by their type.
\<close>

definition validateItem :: "orderItem \<Rightarrow> bool" where
  "validateItem item =
     (orderItem.title item \<noteq> [] \<and> orderItem.author item \<noteq> []
      \<and> orderItem.quantity item \<ge> 1 \<and> orderItem.price item \<ge> 0)"

definition validateAddress :: "shippingAddress \<Rightarrow> bool" where
  "validateAddress a =
     (fullName a \<noteq> [] \<and> phoneNumber a \<noteq> [] \<and> address a \<noteq> [] \<and> city a \<noteq> []
      \<and> state a \<noteq> [] \<and> zipCode a \<noteq> [] \<and> country a \<noteq> [])"

definition paymentMethods :: "string list" where
  "paymentMethods = [''credit_card'', ''debit_card'', ''paypal'', ''cash_on_delivery'']"

definition validateOrder :: "order \<Rightarrow> bool" where
  "validateOrder doc =
     (orderNumber doc \<noteq> []
      \<and> list_all validateItem (order.items doc)
      \<and> validateAddress (shippingAddress doc)
      \<and> paymentMethod doc \<in> set paymentMethods
      \<and> subtotal doc \<ge> 0 \<and> tax doc \<ge> 0 \<and> shippingCost doc \<ge> 0 \<and> order.total doc \<ge> 0
      \<and> (case notes' doc of None \<Rightarrow> True | Some n \<Rightarrow> length n \<le> 500))"

text \<open>
  \<^verbatim>\<open>order.save()\<close>: validation runs first, then the pre-save hook; a new document gets
  its creation time and is inserted, which the unique indexes on the identifier and on the
  order number can refuse; a document read from the collection replaces the stored one.
  \<open>None\<close> stands for the exception that \<^verbatim>\<open>save\<close> throws. Validation is
  modelled on the whole document also for a stored one, where Mongoose checks the required
  and the modified paths only: that makes no difference on a document that passed
  validation when it was stored.
\<close>

definition save :: "bool \<Rightarrow> time \<Rightarrow> order \<Rightarrow> order list \<Rightarrow> (order \<times> order list) option" where
  "save isNew now doc os =
     (if \<not> validateOrder doc then None
      else let doc' = preSave doc in
        if isNew then
          (if list_ex (\<lambda>other. oid other = oid doc' \<or> orderNumber other = orderNumber doc') os
           then None
           else let doc'' = doc'\<lparr>createdAt := now\<rparr> in Some (doc'', os @ [doc'']))
        else Some (doc', map (\<lambda>other. if oid other = oid doc' then doc' else other) os))"

subsection \<open>Stock updates\<close>

text \<open>\<^verbatim>\<open>Book.findByIdAndUpdate(id, { $inc: { stock: n } })\<close>; no book, no update.\<close>

definition incStock :: "book_id \<Rightarrow> int \<Rightarrow> (book_id \<rightharpoonup> book) \<Rightarrow> (book_id \<rightharpoonup> book)" where
  "incStock bid n bs = (case bs bid of None \<Rightarrow> bs | Some b \<Rightarrow> bs(bid \<mapsto> b\<lparr>stock := stock b + n\<rparr>))"

subsection \<open>createOrder\<close>

text \<open>
  The request body: the shipping address as sent (an absent \<^verbatim>\<open>country\<close> takes the
  schema's default; any other absent string fails \<^verbatim>\<open>required\<close> as the empty string
  does, and is modelled by it), the payment method and the notes.
\<close>

record addressInput =
  in_fullName :: string
  in_phoneNumber :: string
  in_address :: string
  in_city :: string
  in_state :: string
  in_zipCode :: string
  in_country :: "string option"

record createOrderBody =
  body_shippingAddress :: "addressInput option"
  body_paymentMethod :: "string option"
  body_notes :: "string option"

definition castAddress :: "addressInput \<Rightarrow> shippingAddress" where
  "castAddress a =
     \<lparr>fullName = in_fullName a, phoneNumber = in_phoneNumber a, address = in_address a,
      city = in_city a, state = in_state a, zipCode = in_zipCode a,
      country = (case in_country a of None \<Rightarrow> ''USA'' | Some c \<Rightarrow> c)\<rparr>"

text \<open>
  What the environment supplies to a request: the clock, and for a new order its
  identifier and the result of \<^verbatim>\<open>generateOrderNumber()\<close>.
\<close>

record env =
  now :: time
  newId :: order_id
  newOrderNumber :: string

text \<open>
  \<^verbatim>\<open>populate('items.bookId')\<close> replaces the reference of every cart line by the
  referenced book, and by null where there is no such book.
\<close>

type_synonym populatedBook = "(book_id \<times> book) option"

definition populateItem :: "(book_id \<rightharpoonup> book) \<Rightarrow> book_id cartItem \<Rightarrow> populatedBook cartItem" where
  "populateItem bs item =
     \<lparr>cartItem.bookId = map_option (Pair (cartItem.bookId item)) (bs (cartItem.bookId item)),
      cartItem.quantity = cartItem.quantity item,
      cartItem.price = cartItem.price item\<rparr>"

definition populate :: "(book_id \<rightharpoonup> book) \<Rightarrow> book_id cart \<Rightarrow> populatedBook cart" where
  "populate bs c = \<lparr>cart.items = map (populateItem bs) (cart.items c), cart.total = cart.total c\<rparr>"

text \<open>
  The validation loop; its result is the response of an early return, if any. Reading
  \<^verbatim>\<open>item.bookId._id\<close> off a null reference throws, and the handler answers the
  exception with the internal error.
\<close>

fun validateStock :: "(book_id \<rightharpoonup> book) \<Rightarrow> populatedBook cartItem list \<Rightarrow> (nat \<times> code) option" where
  "validateStock bs [] = None"
| "validateStock bs (item # rest) =
     (case cartItem.bookId item of
        None \<Rightarrow> Some (500, INTERNAL_SERVER_ERROR)
      | Some (bid, populated) \<Rightarrow>
          (case bs bid of
             None \<Rightarrow> Some (404, BOOK_NOT_FOUND)
           | Some book \<Rightarrow>
               if stock book < cartItem.quantity item then Some (400, INSUFFICIENT_STOCK)
               else validateStock bs rest))"

text \<open>\<^verbatim>\<open>cart.items.map(...)\<close>; \<open>None\<close> when the callback throws on a null reference.\<close>

fun orderItems :: "populatedBook cartItem list \<Rightarrow> orderItem list option" where
  "orderItems [] = Some []"
| "orderItems (item # rest) =
     (case cartItem.bookId item of
        None \<Rightarrow> None
      | Some (bid, populated) \<Rightarrow>
          (case orderItems rest of
             None \<Rightarrow> None
           | Some ois \<Rightarrow>
               Some (\<lparr>bookId = bid, title = book.title populated, author = book.author populated,
                      quantity = cartItem.quantity item, price = cartItem.price item,
                      subtotal = cartItem.price item * of_int (cartItem.quantity item)\<rparr> # ois)))"

text \<open>
  The stock loop; the flag tells whether it ran to its end (\<open>True\<close>) or threw on a null
  reference, leaving the updates made so far.
\<close>

fun updateStock :: "populatedBook cartItem list \<Rightarrow> (book_id \<rightharpoonup> book) \<Rightarrow> (book_id \<rightharpoonup> book) \<times> bool" where
  "updateStock [] bs = (bs, True)"
| "updateStock (item # rest) bs =
     (case cartItem.bookId item of
        None \<Rightarrow> (bs, False)
      | Some (bid, populated) \<Rightarrow> updateStock rest (incStock bid (- cartItem.quantity item) bs))"

text \<open>
  \<^verbatim>\<open>new Order({...})\<close>; the four costs take the schema's default 0, and the
  creation time, which \<^verbatim>\<open>save\<close> sets, is written here already.
\<close>

definition newOrder :: "user_id \<Rightarrow> createOrderBody \<Rightarrow> env \<Rightarrow> addressInput \<Rightarrow> string \<Rightarrow> orderItem list \<Rightarrow> order" where
  "newOrder uid body e addr pm ois =
     \<lparr>oid = newId e, userId = uid, orderNumber = newOrderNumber e,
      items = ois, shippingAddress = castAddress addr,
      paymentMethod = pm,
      paymentStatus = (if pm = ''cash_on_delivery'' then payment_pending else payment_completed),
      orderStatus = confirmed,
      subtotal = 0, tax = 0, shippingCost = 0, total = 0,
      notes' = body_notes body,
      cancelledAt = None, deliveredAt = None, createdAt = now e\<rparr>"

text \<open>
  Every \<^verbatim>\<open>return\<close> of the handler is a response together with the database as the
  handler leaves it; an exception is answered by the \<^verbatim>\<open>catch\<close> block with the
  internal error, whatever was written before it stays written.
\<close>

definition createOrder :: "user_id \<Rightarrow> createOrderBody \<Rightarrow> env \<Rightarrow> db \<Rightarrow> response \<times> db" where
  "createOrder uid body e s =
     (case (body_shippingAddress body, body_paymentMethod body) of
        (None, _) \<Rightarrow> (Failure 400 MISSING_FIELDS, s)
      | (_, None) \<Rightarrow> (Failure 400 MISSING_FIELDS, s)
      | (Some addr, Some pm) \<Rightarrow>
          if pm = [] then (Failure 400 MISSING_FIELDS, s)
          else
            (case map_option (populate (books s)) (carts s uid) of
               None \<Rightarrow> (Failure 400 EMPTY_CART, s)
             | Some cart \<Rightarrow>
                 if length (cart.items cart) = 0 then (Failure 400 EMPTY_CART, s)
                 else
                   (case validateStock (books s) (cart.items cart) of
                      Some (st, c) \<Rightarrow> (Failure st c, s)
                    | None \<Rightarrow>
                        (case orderItems (cart.items cart) of
                           None \<Rightarrow> (Failure 500 INTERNAL_SERVER_ERROR, s)
                         | Some ois \<Rightarrow>
                             (case save True (now e)
                                     (calculateOrderCosts noOptions (newOrder uid body e addr pm ois))
                                     (orders s) of
                                None \<Rightarrow> (Failure 500 INTERNAL_SERVER_ERROR, s)
                              | Some (saved, os) \<Rightarrow>
                                  (case updateStock (cart.items cart) (books s) of
                                     (bs, False) \<Rightarrow>
                                       (Failure 500 INTERNAL_SERVER_ERROR,
                                        s\<lparr>orders := os, books := bs\<rparr>)
                                   | (bs, True) \<Rightarrow>
                                       (Success 201 saved,
                                        s\<lparr>orders := os, books := bs,
                                          carts := (carts s)(uid \<mapsto> \<lparr>cart.items = [], cart.total = 0\<rparr>)\<rparr>)))))))"

subsection \<open>cancelOrder\<close>

text \<open>The loop that restores the stock of every order line.\<close>

fun restoreStock :: "orderItem list \<Rightarrow> (book_id \<rightharpoonup> book) \<Rightarrow> (book_id \<rightharpoonup> book)" where
  "restoreStock [] bs = bs"
| "restoreStock (item # rest) bs =
     restoreStock rest (incStock (orderItem.bookId item) (orderItem.quantity item) bs)"

definition cancelOrder :: "user_id \<Rightarrow> order_id \<Rightarrow> time \<Rightarrow> db \<Rightarrow> response \<times> db" where
  "cancelOrder uid orderId t s =
     (case find (\<lambda>doc. oid doc = orderId \<and> userId doc = uid) (orders s) of
        None \<Rightarrow> (Failure 404 ORDER_NOT_FOUND, s)
      | Some order \<Rightarrow>
          if orderStatus order \<in> set [delivered, cancelled]
          then (Failure 400 INVALID_ORDER_STATUS, s)
          else
            (case save False t (order\<lparr>orderStatus := cancelled, cancelledAt := Some t\<rparr>) (orders s) of
               None \<Rightarrow> (Failure 500 INTERNAL_SERVER_ERROR, s)
             | Some (saved, os) \<Rightarrow>
                 (Success 200 saved,
                  s\<lparr>orders := os, books := restoreStock (order.items saved) (books s)\<rparr>)))"

subsection \<open>updateOrderStatus\<close>

definition validStatuses :: "(string \<times> orderStatus) list" where
  "validStatuses =
     [(''pending'', pending), (''confirmed'', confirmed), (''processing'', processing),
      (''shipped'', shipped), (''delivered'', delivered), (''cancelled'', cancelled)]"

definition updateOrderStatus :: "order_id \<Rightarrow> string \<Rightarrow> time \<Rightarrow> db \<Rightarrow> response \<times> db" where
  "updateOrderStatus orderId status t s =
     (case map_of validStatuses status of
        None \<Rightarrow> (Failure 400 INVALID_STATUS, s)
      | Some newStatus \<Rightarrow>
          (case find (\<lambda>doc. oid doc = orderId) (orders s) of
             None \<Rightarrow> (Failure 404 ORDER_NOT_FOUND, s)
           | Some order \<Rightarrow>
               let order1 = order\<lparr>orderStatus := newStatus\<rparr>;
                   order2 = (if newStatus = delivered then order1\<lparr>deliveredAt := Some t\<rparr> else order1)
               in
                 (case save False t order2 (orders s) of
                    None \<Rightarrow> (Failure 500 INTERNAL_SERVER_ERROR, s)
                  | Some (saved, os) \<Rightarrow> (Success 200 saved, s\<lparr>orders := os\<rparr>))))"

section \<open>Notions used in the statements\<close>

text \<open>The quantity of a book in the lines of a cart and of an order.\<close>

definition cartQuantity :: "book_id \<Rightarrow> book_id cartItem list \<Rightarrow> int" where
  "cartQuantity bid xs = sum_list (map cartItem.quantity (filter (\<lambda>item. cartItem.bookId item = bid) xs))"

definition orderedQuantity :: "book_id \<Rightarrow> orderItem list \<Rightarrow> int" where
  "orderedQuantity bid xs = sum_list (map orderItem.quantity (filter (\<lambda>item. orderItem.bookId item = bid) xs))"

text \<open>An order line is the snapshot of a cart line, with title and author of its book.\<close>

definition snapshotOf :: "(book_id \<rightharpoonup> book) \<Rightarrow> book_id cartItem \<Rightarrow> orderItem \<Rightarrow> bool" where
  "snapshotOf bs item oi =
     (orderItem.bookId oi = cartItem.bookId item
      \<and> orderItem.quantity oi = cartItem.quantity item
      \<and> orderItem.price oi = cartItem.price item
      \<and> orderItem.subtotal oi = cartItem.price item * of_int (cartItem.quantity item)
      \<and> (\<exists>bk. bs (cartItem.bookId item) = Some bk
            \<and> orderItem.title oi = book.title bk \<and> orderItem.author oi = book.author bk))"

text \<open>
  The states of the database that the controller can bring about: it starts without
  orders; the three operations on orders act on it; the catalog and the cart engine
  change books and carts at will.
\<close>

inductive reachable :: "db \<Rightarrow> bool" where
  initial: "orders s = [] \<Longrightarrow> reachable s"
| create: "reachable s \<Longrightarrow> createOrder uid body e s = (r, s') \<Longrightarrow> reachable s'"
| cancel: "reachable s \<Longrightarrow> cancelOrder uid orderId t s = (r, s') \<Longrightarrow> reachable s'"
| update: "reachable s \<Longrightarrow> updateOrderStatus orderId status t s = (r, s') \<Longrightarrow> reachable s'"
| external: "reachable s \<Longrightarrow> reachable (s\<lparr>books := bs, carts := cs\<rparr>)"

text \<open>
  What holds of the stored orders in every such state: the pre-save hook leaves each of
  them as it is, each passes validation, and no two have the same identifier.
\<close>

definition ordersInv :: "order list \<Rightarrow> bool" where
  "ordersInv os =
     ((\<forall>doc \<in> set os. preSave doc = doc \<and> validateOrder doc) \<and> distinct (map oid os))"

text \<open>
  The transitions of the order status as the specification draws them: an order stays
  where it is, or moves forward along pending, confirmed, processing, shipped, delivered,
  or is cancelled; nothing leaves delivered or cancelled.
\<close>

fun statusRank :: "orderStatus \<Rightarrow> nat" where
  "statusRank pending = 0"
| "statusRank confirmed = 1"
| "statusRank processing = 2"
| "statusRank shipped = 3"
| "statusRank delivered = 4"
| "statusRank cancelled = 5"

definition specTransition :: "orderStatus \<Rightarrow> orderStatus \<Rightarrow> bool" where
  "specTransition old new =
     (old = new
      \<or> (old \<notin> set [delivered, cancelled]
           \<and> (new = cancelled \<or> statusRank old < statusRank new)))"

section \<open>Example data\<close>

definition exampleAddress :: shippingAddress where
  "exampleAddress = \<lparr>fullName = ''Ada Reader'', phoneNumber = ''5550100'', address = ''1 Main St'',
     city = ''Springfield'', state = ''IL'', zipCode = ''62701'', country = ''USA''\<rparr>"

definition exampleOrder :: "real \<Rightarrow> order" where
  "exampleOrder p =
     \<lparr>oid = 7, userId = 3, orderNumber = ''ORD-A-B'',
      items = [\<lparr>bookId = 11, title = ''T1'', author = ''A1'', quantity = 2, price = p, subtotal = 2 * p\<rparr>,
               \<lparr>bookId = 12, title = ''T2'', author = ''A2'', quantity = 1, price = 15, subtotal = 15\<rparr>],
      shippingAddress = exampleAddress, paymentMethod = ''paypal'',
      paymentStatus = payment_completed, orderStatus = confirmed,
      subtotal = 0, tax = 0, shippingCost = 0, total = 0, notes' = None,
      cancelledAt = None, deliveredAt = None, createdAt = 1000\<rparr>"

definition exampleBooks :: "book_id \<rightharpoonup> book" where
  "exampleBooks = [11 \<mapsto> \<lparr>book.title = ''T1'', book.author = ''A1'', stock = 5\<rparr>,
                   12 \<mapsto> \<lparr>book.title = ''T2'', book.author = ''A2'', stock = 3\<rparr>]"

definition exampleCart :: "book_id cart" where
  "exampleCart = \<lparr>cart.items = [\<lparr>cartItem.bookId = 11, cartItem.quantity = 2, cartItem.price = 10\<rparr>,
                                \<lparr>cartItem.bookId = 12, cartItem.quantity = 1, cartItem.price = 15\<rparr>],
                  cart.total = 35\<rparr>"

definition exampleDb :: db where
  "exampleDb = \<lparr>books = exampleBooks, carts = [3 \<mapsto> exampleCart], orders = []\<rparr>"

definition exampleAddressInput :: addressInput where
  "exampleAddressInput = \<lparr>in_fullName = ''Ada Reader'', in_phoneNumber = ''5550100'',
     in_address = ''1 Main St'', in_city = ''Springfield'', in_state = ''IL'',
     in_zipCode = ''62701'', in_country = None\<rparr>"

definition exampleBody :: createOrderBody where
  "exampleBody = \<lparr>body_shippingAddress = Some exampleAddressInput,
     body_paymentMethod = Some ''paypal'', body_notes = None\<rparr>"

definition exampleEnv :: env where
  "exampleEnv = \<lparr>now = 1000, newId = 7, newOrderNumber = ''ORD-A-B''\<rparr>"

definition examplePlaced :: order where
  "examplePlaced = (exampleOrder 10)\<lparr>subtotal := 35, tax := 28 / 10, shippingCost := 199,
     order.total := 2368 / 10\<rparr>"

definition examplePlacedDb :: db where
  "examplePlacedDb =
     \<lparr>books = incStock 12 (- 1) (incStock 11 (- 2) exampleBooks),
      carts = [3 \<mapsto> exampleCart, 3 \<mapsto> \<lparr>cart.items = [], cart.total = 0\<rparr>],
      orders = [examplePlaced]\<rparr>"

definition exampleCancelled :: order where
  "exampleCancelled = examplePlaced\<lparr>orderStatus := cancelled, cancelledAt := Some 2000\<rparr>"

definition exampleCancelledDb :: db where
  "exampleCancelledDb =
     examplePlacedDb\<lparr>orders := [exampleCancelled],
       books := incStock 12 1 (incStock 11 2 (books examplePlacedDb))\<rparr>"

definition exampleDelivered :: order where
  "exampleDelivered = examplePlaced\<lparr>orderStatus := delivered, deliveredAt := Some 3000\<rparr>"

definition exampleDeliveredDb :: db where
  "exampleDeliveredDb = examplePlacedDb\<lparr>orders := [exampleDelivered]\<rparr>"

definition exampleReopened :: order where
  "exampleReopened = exampleDelivered\<lparr>orderStatus := pending\<rparr>"

definition exampleReopenedDb :: db where
  "exampleReopenedDb = examplePlacedDb\<lparr>orders := [exampleReopened]\<rparr>"

definition exampleStaleDb :: db where
  "exampleStaleDb = exampleDb\<lparr>books := (books exampleDb)(12 := None)\<rparr>"

section \<open>Properties of the cost calculator\<close>









section \<open>Pagination, refund eligibility and the pre-save hook\<close>



text \<open>
  C8. \<^verbatim>\<open>canBeRefunded\<close> answers yes exactly when the order is delivered, its payment
  is completed and at most 30 days (in milliseconds) have passed since its creation, and
  it leaves the order as it was.
\<close>

theorem canBeRefunded_correct:
  "canBeRefunded t this =
     (orderStatus this = delivered \<and> paymentStatus this = payment_completed
        \<and> t - createdAt this \<le> 30 * 86400000,
      this)"
  by (simp add: canBeRefunded_def Let_def)

theorem canBeRefunded_correct_witness:
  "canBeRefunded (1000 + 30 * 86400000) ((exampleOrder 10)\<lparr>orderStatus := delivered\<rparr>)
     = (True, (exampleOrder 10)\<lparr>orderStatus := delivered\<rparr>)
   \<and> fst (canBeRefunded (1001 + 30 * 86400000) ((exampleOrder 10)\<lparr>orderStatus := delivered\<rparr>)) = False
   \<and> fst (canBeRefunded 2000 (exampleOrder 10)) = False"
  using canBeRefunded_correct [of "1000 + 30 * 86400000" "(exampleOrder 10)\<lparr>orderStatus := delivered\<rparr>"]
    canBeRefunded_correct [of "1001 + 30 * 86400000" "(exampleOrder 10)\<lparr>orderStatus := delivered\<rparr>"]
    canBeRefunded_correct [of 2000 "exampleOrder 10"]
  by (simp add: exampleOrder_def)

text \<open>
  C7. Saving an order whose subtotal is not 0 leaves its subtotal, tax, shipping cost and
  total as they are: the pre-save hook returns the order unchanged, and so does every save
  that goes through; the hook changes an order only when it has items and subtotal 0.
\<close>

theorem preSave_keeps_costs:
  "(subtotal doc \<noteq> 0 \<longrightarrow>
      preSave doc = doc
      \<and> (\<forall>isNew t os saved os'. save isNew t doc os = Some (saved, os') \<longrightarrow>
            subtotal saved = subtotal doc \<and> tax saved = tax doc
            \<and> shippingCost saved = shippingCost doc \<and> order.total saved = order.total doc))
   \<and> (preSave doc \<noteq> doc \<longrightarrow> order.items doc \<noteq> [] \<and> subtotal doc = 0)"
  by (auto simp: preSave_def save_def Let_def split: if_splits)

theorem preSave_keeps_costs_witness:
  "subtotal ((exampleOrder 10)\<lparr>subtotal := 35, tax := 1, shippingCost := 2, order.total := 38\<rparr>) \<noteq> 0
   \<and> preSave ((exampleOrder 10)\<lparr>subtotal := 35, tax := 1, shippingCost := 2, order.total := 38\<rparr>)
       = (exampleOrder 10)\<lparr>subtotal := 35, tax := 1, shippingCost := 2, order.total := 38\<rparr>
   \<and> order.total (fst (the (save False 5
         ((exampleOrder 10)\<lparr>subtotal := 35, tax := 1, shippingCost := 2, order.total := 38\<rparr>) []))) = 38
   \<and> preSave (exampleOrder 10) \<noteq> exampleOrder 10
   \<and> order.items (exampleOrder 10) \<noteq> [] \<and> subtotal (exampleOrder 10) = 0"
proof -
  let ?d = "(exampleOrder 10)\<lparr>subtotal := 35, tax := 1, shippingCost := 2, order.total := 38\<rparr>"
  note A = preSave_keeps_costs [of ?d]
  note B = preSave_keeps_costs [of "exampleOrder 10"]
  have ne: "subtotal ?d \<noteq> 0" by simp
  have keep: "preSave ?d = ?d" using A ne by blast
  have sv: "save False 5 ?d [] = Some (preSave ?d, [])"
    by (simp add: save_def validateOrder_def validateItem_def validateAddress_def
        exampleOrder_def exampleAddress_def paymentMethods_def)
  have "order.total (preSave ?d) = order.total ?d" using A ne sv by blast
  then have tot: "order.total (fst (the (save False 5 ?d []))) = 38" by (simp add: sv)
  have "subtotal (preSave (exampleOrder 10)) = 35"
    by (simp add: preSave_def exampleOrder_def calculateOrderCosts_def calculateTotal_def
        calculateShippingCost_def calculateTax_def calculateSubtotal_def)
  then have ch: "preSave (exampleOrder 10) \<noteq> exampleOrder 10"
    by (auto simp: exampleOrder_def)
  then have "order.items (exampleOrder 10) \<noteq> [] \<and> subtotal (exampleOrder 10) = 0"
    using B by blast
  then show ?thesis using ne keep tot ch by blast
qed

section \<open>Stock bookkeeping\<close>

lemma incStock_apply:
  "incStock bid n bs b =
     (if b = bid then map_option (\<lambda>bk. bk\<lparr>stock := stock bk + n\<rparr>) (bs b) else bs b)"
  by (simp add: incStock_def split: option.split)

lemma restoreStock_apply:
  "restoreStock xs bs b =
     map_option (\<lambda>bk. bk\<lparr>stock := stock bk + orderedQuantity b xs\<rparr>) (bs b)"
proof (induction xs arbitrary: bs)
  case Nil
  show ?case by (simp add: orderedQuantity_def option.map_ident)
next
  case (Cons item rest)
  show ?case
    by (cases "bs b") (auto simp: Cons.IH incStock_apply orderedQuantity_def add.assoc)
qed

lemma validateStock_populated:
  "validateStock bs (map (populateItem bs) xs) = None \<longleftrightarrow>
     (\<forall>item \<in> set xs. \<exists>bk. bs (cartItem.bookId item) = Some bk \<and> cartItem.quantity item \<le> stock bk)"
  by (induction xs) (auto simp: populateItem_def split: option.splits)

lemma validateStock_never_BOOK_NOT_FOUND:
  "validateStock bs (map (populateItem bs) xs) \<noteq> Some (st, BOOK_NOT_FOUND)"
  by (induction xs) (auto simp: populateItem_def split: option.splits)

lemma validateStock_None_refs:
  "validateStock bs ps = None \<Longrightarrow> list_all (\<lambda>p. cartItem.bookId p \<noteq> None) ps"
  by (induction ps) (auto split: option.splits if_splits)

lemma orderItems_total:
  "list_all (\<lambda>p. cartItem.bookId p \<noteq> None) ps \<Longrightarrow> \<exists>ois. orderItems ps = Some ois"
  by (induction ps) (auto split: option.splits)

lemma updateStock_total:
  "list_all (\<lambda>p. cartItem.bookId p \<noteq> None) ps \<Longrightarrow> snd (updateStock ps bs) = True"
  by (induction ps arbitrary: bs) (auto split: option.splits)

lemma updateStock_populated:
  assumes "\<forall>item \<in> set xs. bs0 (cartItem.bookId item) \<noteq> None"
  shows "updateStock (map (populateItem bs0) xs) bs =
     (\<lambda>b. map_option (\<lambda>bk. bk\<lparr>stock := stock bk - cartQuantity b xs\<rparr>) (bs b), True)"
  using assms
proof (induction xs arbitrary: bs)
  case Nil
  show ?case by (simp add: cartQuantity_def option.map_ident)
next
  case (Cons item rest)
  from Cons.prems obtain bk where bk: "bs0 (cartItem.bookId item) = Some bk" by auto
  have rest: "\<forall>item \<in> set rest. bs0 (cartItem.bookId item) \<noteq> None" using Cons.prems by simp
  have "updateStock (map (populateItem bs0) (item # rest)) bs
      = updateStock (map (populateItem bs0) rest) (incStock (cartItem.bookId item) (- cartItem.quantity item) bs)"
    by (simp add: populateItem_def bk)
  also have "\<dots> = (\<lambda>b. map_option (\<lambda>bk. bk\<lparr>stock := stock bk - cartQuantity b rest\<rparr>)
       (incStock (cartItem.bookId item) (- cartItem.quantity item) bs b), True)"
    by (rule Cons.IH [OF rest])
  also have "(\<lambda>b. map_option (\<lambda>bk. bk\<lparr>stock := stock bk - cartQuantity b rest\<rparr>)
       (incStock (cartItem.bookId item) (- cartItem.quantity item) bs b))
     = (\<lambda>b. map_option (\<lambda>bk. bk\<lparr>stock := stock bk - cartQuantity b (item # rest)\<rparr>) (bs b))"
  proof
    fix b
    show "map_option (\<lambda>bk. bk\<lparr>stock := stock bk - cartQuantity b rest\<rparr>)
       (incStock (cartItem.bookId item) (- cartItem.quantity item) bs b)
      = map_option (\<lambda>bk. bk\<lparr>stock := stock bk - cartQuantity b (item # rest)\<rparr>) (bs b)"
      by (cases "bs b") (auto simp: incStock_apply cartQuantity_def algebra_simps)
  qed
  finally show ?case .
qed

lemma orderItems_populated:
  "orderItems (map (populateItem bs) xs) = Some ois \<Longrightarrow> list_all2 (snapshotOf bs) xs ois"
  by (induction xs arbitrary: ois)
     (auto simp: populateItem_def snapshotOf_def split: option.splits)

lemma snapshot_quantity:
  "list_all2 (snapshotOf bs) xs ois \<Longrightarrow> orderedQuantity b ois = cartQuantity b xs"
  by (induction xs ois rule: list_all2_induct)
     (auto simp: orderedQuantity_def cartQuantity_def snapshotOf_def)

section \<open>Saving\<close>

lemma calculateOrderCosts_fields:
  "order.items (calculateOrderCosts opts d) = order.items d"
  "oid (calculateOrderCosts opts d) = oid d"
  "userId (calculateOrderCosts opts d) = userId d"
  "orderNumber (calculateOrderCosts opts d) = orderNumber d"
  "shippingAddress (calculateOrderCosts opts d) = shippingAddress d"
  "paymentMethod (calculateOrderCosts opts d) = paymentMethod d"
  "paymentStatus (calculateOrderCosts opts d) = paymentStatus d"
  "orderStatus (calculateOrderCosts opts d) = orderStatus d"
  "notes' (calculateOrderCosts opts d) = notes' d"
  "cancelledAt (calculateOrderCosts opts d) = cancelledAt d"
  "deliveredAt (calculateOrderCosts opts d) = deliveredAt d"
  "createdAt (calculateOrderCosts opts d) = createdAt d"
  by (simp_all add: calculateOrderCosts_def calculateTotal_def calculateShippingCost_def
      calculateTax_def calculateSubtotal_def)

lemma calculateOrderCosts_idem:
  "calculateOrderCosts opts (calculateOrderCosts opts d) = calculateOrderCosts opts d"
  by (simp add: calculateOrderCosts_def calculateTotal_def calculateShippingCost_def
      calculateTax_def calculateSubtotal_def)

lemma preSave_calculated:
  "preSave (calculateOrderCosts noOptions d) = calculateOrderCosts noOptions d"
  by (simp add: preSave_def calculateOrderCosts_idem)

lemma preSave_idem: "preSave (preSave d) = preSave d"
  by (simp add: preSave_def calculateOrderCosts_idem calculateOrderCosts_fields)

lemma preSave_fields:
  "order.items (preSave d) = order.items d"
  "oid (preSave d) = oid d"
  "userId (preSave d) = userId d"
  "orderNumber (preSave d) = orderNumber d"
  "shippingAddress (preSave d) = shippingAddress d"
  "paymentMethod (preSave d) = paymentMethod d"
  "paymentStatus (preSave d) = paymentStatus d"
  "orderStatus (preSave d) = orderStatus d"
  "notes' (preSave d) = notes' d"
  "cancelledAt (preSave d) = cancelledAt d"
  "deliveredAt (preSave d) = deliveredAt d"
  "createdAt (preSave d) = createdAt d"
  by (simp_all add: preSave_def calculateOrderCosts_fields)

lemma preSave_status_update:
  "preSave (d\<lparr>orderStatus := st\<rparr>) = (preSave d)\<lparr>orderStatus := st\<rparr>"
  "preSave (d\<lparr>cancelledAt := c\<rparr>) = (preSave d)\<lparr>cancelledAt := c\<rparr>"
  "preSave (d\<lparr>deliveredAt := c\<rparr>) = (preSave d)\<lparr>deliveredAt := c\<rparr>"
  "preSave (d\<lparr>createdAt := t\<rparr>) = (preSave d)\<lparr>createdAt := t\<rparr>"
  by (simp_all add: preSave_def calculateOrderCosts_def calculateTotal_def
      calculateShippingCost_def calculateTax_def calculateSubtotal_def)



section \<open>createOrder\<close>

lemma save_new_result:
  "save True t d os = Some (saved, os') \<Longrightarrow>
     validateOrder d \<and> saved = (preSave d)\<lparr>createdAt := t\<rparr> \<and> os' = os @ [saved]
     \<and> \<not> list_ex (\<lambda>other. oid other = oid d \<or> orderNumber other = orderNumber d) os"
  by (auto simp: save_def Let_def preSave_fields split: if_splits)

lemma save_existing_result:
  "save False t d os = Some (saved, os') \<Longrightarrow>
     validateOrder d \<and> saved = preSave d
     \<and> os' = map (\<lambda>other. if oid other = oid d then saved else other) os"
  by (auto simp: save_def Let_def preSave_fields split: if_splits)

lemma createOrder_cases:
  assumes "createOrder uid body e s = (r, s')"
  shows "(\<exists>st c. r = Failure st c \<and> s' = s)
    \<or> (\<exists>saved addr pm c ois.
          r = Success 201 saved
          \<and> body_shippingAddress body = Some addr \<and> body_paymentMethod body = Some pm \<and> pm \<noteq> []
          \<and> carts s uid = Some c \<and> cart.items c \<noteq> []
          \<and> validateStock (books s) (map (populateItem (books s)) (cart.items c)) = None
          \<and> orderItems (map (populateItem (books s)) (cart.items c)) = Some ois
          \<and> save True (now e) (calculateOrderCosts noOptions (newOrder uid body e addr pm ois)) (orders s)
               = Some (saved, orders s @ [saved])
          \<and> s' = s\<lparr>orders := orders s @ [saved],
                  books := (\<lambda>b. map_option (\<lambda>bk. bk\<lparr>stock := stock bk - cartQuantity b (cart.items c)\<rparr>)
                                  (books s b)),
                  carts := (carts s)(uid \<mapsto> \<lparr>cart.items = [], cart.total = 0\<rparr>)\<rparr>)"
proof (cases "body_shippingAddress body")
  case None
  then show ?thesis using assms by (auto simp: createOrder_def)
next
  case (Some addr)
  note addr = this
  show ?thesis
  proof (cases "body_paymentMethod body")
    case None
    then show ?thesis using assms addr by (auto simp: createOrder_def)
  next
    case (Some pm)
    note pm = this
    show ?thesis
    proof (cases "pm = []")
      case True
      then show ?thesis using assms addr pm by (auto simp: createOrder_def)
    next
      case False
      note pmne = this
      show ?thesis
      proof (cases "carts s uid")
        case None
        then show ?thesis using assms addr pm pmne by (auto simp: createOrder_def)
      next
        case (Some c)
        note c = this
        let ?ps = "map (populateItem (books s)) (cart.items c)"
        show ?thesis
        proof (cases "cart.items c = []")
          case True
          then show ?thesis using assms addr pm pmne c by (auto simp: createOrder_def populate_def)
        next
          case False
          note ne = this
          show ?thesis
          proof (cases "validateStock (books s) ?ps")
            case (Some err)
            then show ?thesis using assms addr pm pmne c ne
              by (cases err) (auto simp: createOrder_def populate_def)
          next
            case None
            note vs = this
            have refs: "list_all (\<lambda>p. cartItem.bookId p \<noteq> None) ?ps"
              by (rule validateStock_None_refs [OF vs])
            obtain ois where ois: "orderItems ?ps = Some ois"
              using orderItems_total [OF refs] by blast
            have ex: "\<forall>item \<in> set (cart.items c). books s (cartItem.bookId item) \<noteq> None"
              using vs by (auto simp: validateStock_populated)
            note us = updateStock_populated [OF ex, of "books s"]
            let ?d = "calculateOrderCosts noOptions (newOrder uid body e addr pm ois)"
            show ?thesis
            proof (cases "save True (now e) ?d (orders s)")
              case None
              then show ?thesis using assms addr pm pmne c ne vs ois
                by (auto simp: createOrder_def populate_def newOrder_def Let_def)
            next
              case (Some res)
              obtain saved os where res: "res = (saved, os)" by (cases res)
              have os: "os = orders s @ [saved]"
                using save_new_result [of "now e" ?d "orders s" saved os] Some res by simp
              have "createOrder uid body e s =
                  (Success 201 saved,
                   s\<lparr>orders := os,
                     books := (\<lambda>b. map_option (\<lambda>bk. bk\<lparr>stock := stock bk - cartQuantity b (cart.items c)\<rparr>)
                                  (books s b)),
                     carts := (carts s)(uid \<mapsto> \<lparr>cart.items = [], cart.total = 0\<rparr>)\<rparr>)"
                using addr pm pmne c ne vs ois Some res us
                by (simp add: createOrder_def populate_def newOrder_def Let_def)
              then show ?thesis using assms addr pm pmne c ne vs ois Some res os by auto
            qed
          qed
        qed
      qed
    qed
  qed
qed





section \<open>cancelOrder\<close>

lemma cancelOrder_cases:
  assumes "cancelOrder uid orderId t s = (r, s')"
  shows "(find (\<lambda>doc. oid doc = orderId \<and> userId doc = uid) (orders s) = None
          \<and> r = Failure 404 ORDER_NOT_FOUND \<and> s' = s)
    \<or> (\<exists>order. find (\<lambda>doc. oid doc = orderId \<and> userId doc = uid) (orders s) = Some order
          \<and> orderStatus order \<in> {delivered, cancelled}
          \<and> r = Failure 400 INVALID_ORDER_STATUS \<and> s' = s)
    \<or> (\<exists>order. find (\<lambda>doc. oid doc = orderId \<and> userId doc = uid) (orders s) = Some order
          \<and> orderStatus order \<notin> {delivered, cancelled}
          \<and> \<not> validateOrder (order\<lparr>orderStatus := cancelled, cancelledAt := Some t\<rparr>)
          \<and> r = Failure 500 INTERNAL_SERVER_ERROR \<and> s' = s)
    \<or> (\<exists>order saved. find (\<lambda>doc. oid doc = orderId \<and> userId doc = uid) (orders s) = Some order
          \<and> orderStatus order \<notin> {delivered, cancelled}
          \<and> validateOrder (order\<lparr>orderStatus := cancelled, cancelledAt := Some t\<rparr>)
          \<and> saved = preSave (order\<lparr>orderStatus := cancelled, cancelledAt := Some t\<rparr>)
          \<and> r = Success 200 saved
          \<and> s' = s\<lparr>orders := map (\<lambda>other. if oid other = orderId then saved else other) (orders s),
                  books := restoreStock (order.items order) (books s)\<rparr>)"
proof (cases "find (\<lambda>doc. oid doc = orderId \<and> userId doc = uid) (orders s)")
  case None
  then show ?thesis using assms by (auto simp: cancelOrder_def)
next
  case (Some order)
  then have o: "oid order = orderId" by (auto simp: find_Some_iff)
  show ?thesis
  proof (cases "orderStatus order \<in> {delivered, cancelled}")
    case True
    then show ?thesis using assms Some by (auto simp: cancelOrder_def)
  next
    case False
    then show ?thesis using assms Some o
      by (auto simp: cancelOrder_def save_def Let_def preSave_fields split: if_splits)
  qed
qed

section \<open>updateOrderStatus and the reachable states\<close>

lemma updateOrderStatus_cases:
  assumes "updateOrderStatus orderId status t s = (r, s')"
  shows "(map_of validStatuses status = None \<and> r = Failure 400 INVALID_STATUS \<and> s' = s)
    \<or> (map_of validStatuses status \<noteq> None \<and> find (\<lambda>doc. oid doc = orderId) (orders s) = None
          \<and> r = Failure 404 ORDER_NOT_FOUND \<and> s' = s)
    \<or> (\<exists>order. find (\<lambda>doc. oid doc = orderId) (orders s) = Some order
          \<and> map_of validStatuses status \<noteq> None
          \<and> \<not> validateOrder order \<and> r = Failure 500 INTERNAL_SERVER_ERROR \<and> s' = s)
    \<or> (\<exists>order newStatus saved.
          map_of validStatuses status = Some newStatus
          \<and> find (\<lambda>doc. oid doc = orderId) (orders s) = Some order
          \<and> validateOrder order
          \<and> saved = preSave (order\<lparr>orderStatus := newStatus,
                 deliveredAt := (if newStatus = delivered then Some t else deliveredAt order)\<rparr>)
          \<and> r = Success 200 saved
          \<and> s' = s\<lparr>orders := map (\<lambda>other. if oid other = orderId then saved else other) (orders s)\<rparr>)"
proof (cases "map_of validStatuses status")
  case None
  then show ?thesis using assms by (simp add: updateOrderStatus_def)
next
  case (Some newStatus)
  note ns = this
  show ?thesis
  proof (cases "find (\<lambda>doc. oid doc = orderId) (orders s)")
    case None
    then show ?thesis using assms ns by (auto simp: updateOrderStatus_def)
  next
    case (Some order)
    then have o: "oid order = orderId" by (auto simp: find_Some_iff)
    have v: "validateOrder (order\<lparr>orderStatus := newStatus, deliveredAt := x\<rparr>) = validateOrder order" for x
      by (simp add: validateOrder_def)
    have v': "validateOrder (order\<lparr>orderStatus := newStatus\<rparr>) = validateOrder order"
      by (simp add: validateOrder_def)
    show ?thesis
    proof (cases "newStatus = delivered")
      case True
      then show ?thesis using assms ns Some o v [of "Some t"]
        by (auto simp: updateOrderStatus_def save_def Let_def preSave_fields split: if_splits)
    next
      case False
      then show ?thesis using assms ns Some o v'
        by (auto simp: updateOrderStatus_def save_def Let_def preSave_fields split: if_splits)
    qed
  qed
qed

lemma ordersInv_replace:
  assumes "ordersInv os" and "preSave saved = saved \<and> validateOrder saved" and "oid saved = k"
  shows "ordersInv (map (\<lambda>other. if oid other = k then saved else other) os)"
proof -
  let ?f = "\<lambda>other. if oid other = k then saved else other"
  have m: "map oid (map ?f os) = map oid os"
    using assms(3) by (induction os) auto
  have "distinct (map oid os)" using assms(1) by (simp add: ordersInv_def)
  then have d: "distinct (map oid (map ?f os))" by (simp only: m)
  have p: "\<forall>doc \<in> set (map ?f os). preSave doc = doc \<and> validateOrder doc"
    using assms(1,2) by (auto simp: ordersInv_def)
  show ?thesis unfolding ordersInv_def using d p by blast
qed

lemma createOrder_Success:
  assumes "createOrder uid body e s = (Success st saved, s')"
  shows "\<exists>addr pm c ois.
          st = 201
          \<and> body_shippingAddress body = Some addr \<and> body_paymentMethod body = Some pm \<and> pm \<noteq> []
          \<and> carts s uid = Some c \<and> cart.items c \<noteq> []
          \<and> validateStock (books s) (map (populateItem (books s)) (cart.items c)) = None
          \<and> orderItems (map (populateItem (books s)) (cart.items c)) = Some ois
          \<and> save True (now e) (calculateOrderCosts noOptions (newOrder uid body e addr pm ois)) (orders s)
               = Some (saved, orders s @ [saved])
          \<and> s' = s\<lparr>orders := orders s @ [saved],
                  books := (\<lambda>b. map_option (\<lambda>bk. bk\<lparr>stock := stock bk - cartQuantity b (cart.items c)\<rparr>)
                                  (books s b)),
                  carts := (carts s)(uid \<mapsto> \<lparr>cart.items = [], cart.total = 0\<rparr>)\<rparr>"
  using createOrder_cases [OF assms] by (elim disjE exE conjE) (simp, blast)

lemma reachable_ordersInv: "reachable s \<Longrightarrow> ordersInv (orders s)"
proof (induction rule: reachable.induct)
  case (initial s)
  then show ?case by (simp add: ordersInv_def)
next
  case (create s uid body e r s')
  from createOrder_cases [OF create.hyps(2)] show ?case
  proof (elim disjE exE conjE)
    fix st c assume "s' = s"
    then show ?thesis using create.IH by simp
  next
    fix saved addr pm ois and c :: "book_id cart"
    assume sv: "save True (now e) (calculateOrderCosts noOptions (newOrder uid body e addr pm ois)) (orders s)
               = Some (saved, orders s @ [saved])"
      and s': "s' = s\<lparr>orders := orders s @ [saved],
                  books := (\<lambda>b. map_option (\<lambda>bk. bk\<lparr>stock := stock bk - cartQuantity b (cart.items c)\<rparr>)
                                  (books s b)),
                  carts := (carts s)(uid \<mapsto> \<lparr>cart.items = [], cart.total = 0\<rparr>)\<rparr>"
    let ?d = "calculateOrderCosts noOptions (newOrder uid body e addr pm ois)"
    from save_new_result [OF sv]
    have saved: "saved = (preSave ?d)\<lparr>createdAt := now e\<rparr>"
      and valid: "validateOrder ?d"
      and fresh: "\<not> list_ex (\<lambda>other. oid other = oid ?d \<or> orderNumber other = orderNumber ?d) (orders s)"
      by blast+
    have "preSave saved = saved" by (simp add: saved preSave_status_update preSave_idem)
    moreover have "validateOrder saved"
      using valid by (simp add: saved preSave_calculated validateOrder_def)
    moreover have "oid saved \<notin> oid ` set (orders s)"
      using fresh by (auto simp: saved preSave_fields list_ex_iff)
    ultimately show ?thesis using create.IH by (auto simp: s' ordersInv_def)
  qed
next
  case (cancel s uid orderId t r s')
  from cancelOrder_cases [OF cancel.hyps(2)] show ?case
  proof (elim disjE exE conjE)
    fix order saved
    assume f: "find (\<lambda>doc. oid doc = orderId \<and> userId doc = uid) (orders s) = Some order"
      and valid: "validateOrder (order\<lparr>orderStatus := cancelled, cancelledAt := Some t\<rparr>)"
      and saved: "saved = preSave (order\<lparr>orderStatus := cancelled, cancelledAt := Some t\<rparr>)"
      and s': "s' = s\<lparr>orders := map (\<lambda>other. if oid other = orderId then saved else other) (orders s),
                  books := restoreStock (order.items order) (books s)\<rparr>"
    have "order \<in> set (orders s)" and "oid order = orderId"
      using f by (auto simp: find_Some_iff in_set_conv_nth)
    then have stable: "preSave order = order" using cancel.IH by (simp add: ordersInv_def)
    have eq: "saved = order\<lparr>orderStatus := cancelled, cancelledAt := Some t\<rparr>"
      by (simp add: saved preSave_status_update stable)
    have "oid saved = orderId" using \<open>oid order = orderId\<close> by (simp add: eq)
    moreover have "preSave saved = saved" by (simp add: saved preSave_idem)
    moreover have "validateOrder saved" using valid by (simp only: eq)
    ultimately show ?thesis using ordersInv_replace [OF cancel.IH] by (simp add: s')
  qed (use cancel.IH in simp_all)
next
  case (update s orderId status t r s')
  from updateOrderStatus_cases [OF update.hyps(2)] show ?case
  proof (elim disjE exE conjE)
    fix order newStatus saved
    assume f: "find (\<lambda>doc. oid doc = orderId) (orders s) = Some order"
      and valid: "validateOrder order"
      and saved: "saved = preSave (order\<lparr>orderStatus := newStatus,
                 deliveredAt := (if newStatus = delivered then Some t else deliveredAt order)\<rparr>)"
      and s': "s' = s\<lparr>orders := map (\<lambda>other. if oid other = orderId then saved else other) (orders s)\<rparr>"
    have "order \<in> set (orders s)" and "oid order = orderId"
      using f by (auto simp: find_Some_iff in_set_conv_nth)
    then have stable: "preSave order = order" using update.IH by (simp add: ordersInv_def)
    have eq: "saved = order\<lparr>orderStatus := newStatus,
                 deliveredAt := (if newStatus = delivered then Some t else deliveredAt order)\<rparr>"
      by (simp add: saved preSave_status_update stable)
    have "oid saved = orderId" using \<open>oid order = orderId\<close> by (simp add: eq)
    moreover have "preSave saved = saved" by (simp add: saved preSave_idem)
    moreover have "validateOrder saved" using valid by (simp add: eq validateOrder_def)
    ultimately show ?thesis using ordersInv_replace [OF update.IH] by (simp add: s')
  qed (use update.IH in simp_all)
next
  case (external s bs cs)
  then show ?case by simp
qed

section \<open>Stock conservation\<close>

lemma find_append_None:
  "find P xs = None \<Longrightarrow> find P (xs @ ys) = find P ys"
  by (induction xs) (auto split: if_splits)

lemma map_option_stock_roundtrip:
  "map_option (\<lambda>bk. bk\<lparr>stock := stock bk + q\<rparr>) (map_option (\<lambda>bk. bk\<lparr>stock := stock bk - q\<rparr>) x) = x"
  by (cases x) simp_all

text \<open>
  C3. When \<^verbatim>\<open>createOrder\<close> succeeds and \<^verbatim>\<open>cancelOrder\<close> of the order it created
  then succeeds, the stock of every book is what it was before the order was created.
\<close>

theorem create_cancel_restores_stock:
  assumes cr: "createOrder uid body e s = (Success st saved, s1)"
    and ca: "cancelOrder uid' (oid saved) t s1 = (Success st' saved', s2)"
  shows "books s2 = books s"
proof -
  from createOrder_Success [OF cr] obtain addr pm and c :: "book_id cart" and ois where
    ois: "orderItems (map (populateItem (books s)) (cart.items c)) = Some ois"
    and sv: "save True (now e) (calculateOrderCosts noOptions (newOrder uid body e addr pm ois)) (orders s)
               = Some (saved, orders s @ [saved])"
    and s1: "s1 = s\<lparr>orders := orders s @ [saved],
                  books := (\<lambda>b. map_option (\<lambda>bk. bk\<lparr>stock := stock bk - cartQuantity b (cart.items c)\<rparr>)
                                  (books s b)),
                  carts := (carts s)(uid \<mapsto> \<lparr>cart.items = [], cart.total = 0\<rparr>)\<rparr>"
    by blast
  let ?d = "calculateOrderCosts noOptions (newOrder uid body e addr pm ois)"
  from save_new_result [OF sv]
  have saved: "saved = (preSave ?d)\<lparr>createdAt := now e\<rparr>"
    and fresh: "\<not> list_ex (\<lambda>other. oid other = oid ?d \<or> orderNumber other = orderNumber ?d) (orders s)"
    by blast+
  have items: "order.items saved = ois"
    by (simp add: saved preSave_fields calculateOrderCosts_fields newOrder_def)
  have oid: "oid saved = oid ?d" by (simp add: saved preSave_fields)
  have notin: "find (\<lambda>doc. oid doc = oid saved \<and> userId doc = uid') (orders s) = None"
    using fresh by (auto simp: find_None_iff list_ex_iff oid)
  have f: "find (\<lambda>doc. oid doc = oid saved \<and> userId doc = uid') (orders s1)
      = (if userId saved = uid' then Some saved else None)"
    by (simp add: s1 find_append_None [OF notin])
  from cancelOrder_cases [OF ca] f
  have s2: "books s2 = restoreStock (order.items saved) (books s1)"
    by (auto split: if_splits)
  have q: "orderedQuantity b ois = cartQuantity b (cart.items c)" for b
    by (rule snapshot_quantity [OF orderItems_populated [OF ois]])
  show ?thesis
  proof
    fix b
    show "books s2 b = books s b"
      by (simp add: s2 items restoreStock_apply s1 q map_option_stock_roundtrip)
  qed
qed

subsection \<open>A run of the example\<close>

lemma example_costs:
  "calculateOrderCosts noOptions (exampleOrder 10) = examplePlaced"
  by (simp add: examplePlaced_def exampleOrder_def calculateOrderCosts_def calculateTotal_def
      calculateShippingCost_def calculateTax_def calculateSubtotal_def toFixed_def
      optTaxRate_def optFreeShippingThreshold_def noOptions_def)

lemma example_valid: "validateOrder examplePlaced"
  by (simp add: examplePlaced_def exampleOrder_def validateOrder_def validateItem_def
      validateAddress_def exampleAddress_def paymentMethods_def)

lemma example_preSave: "preSave examplePlaced = examplePlaced"
  by (simp add: preSave_def examplePlaced_def)

lemma example_newOrder:
  "newOrder 3 exampleBody exampleEnv exampleAddressInput ''paypal''
     [\<lparr>bookId = 11, title = ''T1'', author = ''A1'', quantity = 2, price = 10, subtotal = 20\<rparr>,
      \<lparr>bookId = 12, title = ''T2'', author = ''A2'', quantity = 1, price = 15, subtotal = 15\<rparr>]
   = exampleOrder 10"
  by (simp add: newOrder_def exampleOrder_def exampleBody_def exampleEnv_def castAddress_def
      exampleAddressInput_def exampleAddress_def)

lemma example_createOrder:
  "createOrder 3 exampleBody exampleEnv exampleDb = (Success 201 examplePlaced, examplePlacedDb)"
proof -
  have pop: "map (populateItem (books exampleDb)) (cart.items exampleCart) =
      [\<lparr>cartItem.bookId = Some (11, \<lparr>book.title = ''T1'', book.author = ''A1'', stock = 5\<rparr>),
        cartItem.quantity = 2, cartItem.price = 10\<rparr>,
       \<lparr>cartItem.bookId = Some (12, \<lparr>book.title = ''T2'', book.author = ''A2'', stock = 3\<rparr>),
        cartItem.quantity = 1, cartItem.price = 15\<rparr>]"
    by (simp add: populateItem_def exampleDb_def exampleBooks_def exampleCart_def)
  have sv: "save True 1000 examplePlaced [] = Some (examplePlaced, [examplePlaced])"
    by (simp add: save_def Let_def example_valid example_preSave) (simp add: examplePlaced_def exampleOrder_def)
  have b: "body_shippingAddress exampleBody = Some exampleAddressInput"
    "body_paymentMethod exampleBody = Some ''paypal''"
    by (simp_all add: exampleBody_def)
  have c: "carts exampleDb 3 = Some exampleCart" "orders exampleDb = []" "now exampleEnv = 1000"
    "books exampleDb 11 = Some \<lparr>book.title = ''T1'', book.author = ''A1'', stock = 5\<rparr>"
    "books exampleDb 12 = Some \<lparr>book.title = ''T2'', book.author = ''A2'', stock = 3\<rparr>"
    by (simp_all add: exampleDb_def exampleEnv_def exampleBooks_def)
  have ne: "cart.items exampleCart \<noteq> []" by (simp add: exampleCart_def)
  have db: "exampleDb\<lparr>orders := [examplePlaced],
      books := incStock 12 (- 1) (incStock 11 (- 2) (books exampleDb)),
      carts := (carts exampleDb)(3 \<mapsto> \<lparr>cart.items = [], cart.total = 0\<rparr>)\<rparr> = examplePlacedDb"
    by (simp add: examplePlacedDb_def exampleDb_def)
  show ?thesis
    by (simp add: createOrder_def populate_def b c ne pop example_newOrder example_costs sv db)
qed

lemma example_cancelOrder:
  "cancelOrder 3 7 2000 examplePlacedDb = (Success 200 exampleCancelled, exampleCancelledDb)"
proof -
  have f: "find (\<lambda>doc. oid doc = 7 \<and> userId doc = 3) (orders examplePlacedDb) = Some examplePlaced"
    by (simp add: examplePlacedDb_def examplePlaced_def exampleOrder_def)
  have st: "orderStatus examplePlaced = confirmed"
    by (simp add: examplePlaced_def exampleOrder_def)
  have v: "validateOrder (examplePlaced\<lparr>orderStatus := cancelled, cancelledAt := Some 2000\<rparr>)"
    using example_valid by (simp add: validateOrder_def)
  have p: "preSave (examplePlaced\<lparr>orderStatus := cancelled, cancelledAt := Some 2000\<rparr>) = exampleCancelled"
    by (simp add: preSave_def exampleCancelled_def examplePlaced_def)
  have sv: "save False 2000 (examplePlaced\<lparr>orderStatus := cancelled, cancelledAt := Some 2000\<rparr>)
      (orders examplePlacedDb) = Some (exampleCancelled, [exampleCancelled])"
    by (simp add: save_def Let_def v p) (simp add: examplePlacedDb_def examplePlaced_def exampleOrder_def exampleCancelled_def)
  have it: "order.items exampleCancelled =
     [\<lparr>bookId = 11, title = ''T1'', author = ''A1'', quantity = 2, price = 10, subtotal = 20\<rparr>,
      \<lparr>bookId = 12, title = ''T2'', author = ''A2'', quantity = 1, price = 15, subtotal = 15\<rparr>]"
    by (simp add: exampleCancelled_def examplePlaced_def exampleOrder_def)
  show ?thesis
    by (simp add: cancelOrder_def f st sv it exampleCancelledDb_def)
qed

theorem create_cancel_restores_stock_witness:
  "createOrder 3 exampleBody exampleEnv exampleDb = (Success 201 examplePlaced, examplePlacedDb)
   \<and> cancelOrder 3 (oid examplePlaced) 2000 examplePlacedDb = (Success 200 exampleCancelled, exampleCancelledDb)
   \<and> map_option stock (books exampleDb 11) = Some 5
   \<and> map_option stock (books examplePlacedDb 11) = Some 3
   \<and> books exampleCancelledDb = books exampleDb"
proof -
  have o: "oid examplePlaced = 7" by (simp add: examplePlaced_def exampleOrder_def)
  have ca: "cancelOrder 3 (oid examplePlaced) 2000 examplePlacedDb = (Success 200 exampleCancelled, exampleCancelledDb)"
    by (simp only: o example_cancelOrder)
  have "books exampleCancelledDb = books exampleDb"
    by (rule create_cancel_restores_stock [OF example_createOrder ca])
  moreover have "map_option stock (books exampleDb 11) = Some 5"
    by (simp add: exampleDb_def exampleBooks_def)
  moreover have "map_option stock (books examplePlacedDb 11) = Some 3"
    by (simp add: examplePlacedDb_def exampleBooks_def incStock_apply)
  ultimately show ?thesis using example_createOrder ca by simp
qed

section \<open>Cancellation\<close>

lemma find_replace:
  assumes "find P os = Some order" and "P saved" and "\<And>doc. P doc \<Longrightarrow> oid doc = k"
  shows "find P (map (\<lambda>other. if oid other = k then saved else other) os) = Some saved"
  using assms(1)
proof (induction os)
  case Nil
  then show ?case by simp
next
  case (Cons x xs)
  show ?case
  proof (cases "oid x = k")
    case True
    then show ?thesis using assms(2) by simp
  next
    case False
    then have "\<not> P x" using assms(3) by blast
    then show ?thesis using Cons False by simp
  qed
qed

text \<open>
  C5. \<^verbatim>\<open>cancelOrder\<close> answers \<^verbatim>\<open>ORDER_NOT_FOUND\<close> when no order with the given
  identifier belongs to the caller, and \<^verbatim>\<open>INVALID_ORDER_STATUS\<close> when the order is
  delivered or already cancelled, in both cases leaving the database as it was. An order
  in any other status that passes validation is cancelled; and whenever the operation
  succeeds, the order was found in a status other than those two, it is stored with
  status cancelled and the cancellation time, and the stock of every book is raised by
  the quantity the order holds of it.
\<close>

theorem cancelOrder_correct:
  "((\<forall>doc \<in> set (orders s). \<not> (oid doc = orderId \<and> userId doc = uid)) \<longrightarrow>
       cancelOrder uid orderId t s = (Failure 404 ORDER_NOT_FOUND, s))
   \<and> (\<forall>order. find (\<lambda>doc. oid doc = orderId \<and> userId doc = uid) (orders s) = Some order
          \<and> orderStatus order \<in> {delivered, cancelled} \<longrightarrow>
       cancelOrder uid orderId t s = (Failure 400 INVALID_ORDER_STATUS, s))
   \<and> (\<forall>order. find (\<lambda>doc. oid doc = orderId \<and> userId doc = uid) (orders s) = Some order
          \<and> orderStatus order \<notin> {delivered, cancelled} \<and> validateOrder order \<longrightarrow>
       (\<exists>saved s'. cancelOrder uid orderId t s = (Success 200 saved, s')))
   \<and> (\<forall>st saved s'. cancelOrder uid orderId t s = (Success st saved, s') \<longrightarrow>
       (\<exists>order. find (\<lambda>doc. oid doc = orderId \<and> userId doc = uid) (orders s) = Some order
          \<and> orderStatus order \<notin> {delivered, cancelled}
          \<and> order.items saved = order.items order)
       \<and> orderStatus saved = cancelled \<and> cancelledAt saved = Some t
       \<and> find (\<lambda>doc. oid doc = orderId \<and> userId doc = uid) (orders s') = Some saved
       \<and> (\<forall>b. books s' b =
              map_option (\<lambda>bk. bk\<lparr>stock := stock bk + orderedQuantity b (order.items saved)\<rparr>) (books s b))
       \<and> carts s' = carts s)"
proof (intro conjI allI impI)
  assume "\<forall>doc \<in> set (orders s). \<not> (oid doc = orderId \<and> userId doc = uid)"
  then have "find (\<lambda>doc. oid doc = orderId \<and> userId doc = uid) (orders s) = None"
    by (simp add: find_None_iff)
  then show "cancelOrder uid orderId t s = (Failure 404 ORDER_NOT_FOUND, s)"
    by (simp add: cancelOrder_def)
next
  fix order
  assume "find (\<lambda>doc. oid doc = orderId \<and> userId doc = uid) (orders s) = Some order
          \<and> orderStatus order \<in> {delivered, cancelled}"
  then show "cancelOrder uid orderId t s = (Failure 400 INVALID_ORDER_STATUS, s)"
    by (auto simp: cancelOrder_def)
next
  fix order
  assume a: "find (\<lambda>doc. oid doc = orderId \<and> userId doc = uid) (orders s) = Some order
          \<and> orderStatus order \<notin> {delivered, cancelled} \<and> validateOrder order"
  then have "validateOrder (order\<lparr>orderStatus := cancelled, cancelledAt := Some t\<rparr>)"
    by (simp add: validateOrder_def)
  then show "\<exists>saved s'. cancelOrder uid orderId t s = (Success 200 saved, s')"
    using a by (auto simp: cancelOrder_def save_def Let_def)
next
  fix st saved s'
  assume run: "cancelOrder uid orderId t s = (Success st saved, s')"
  from cancelOrder_cases [OF run] obtain order where
    f: "find (\<lambda>doc. oid doc = orderId \<and> userId doc = uid) (orders s) = Some order"
    and st: "orderStatus order \<notin> {delivered, cancelled}"
    and saved: "saved = preSave (order\<lparr>orderStatus := cancelled, cancelledAt := Some t\<rparr>)"
    and s': "s' = s\<lparr>orders := map (\<lambda>other. if oid other = orderId then saved else other) (orders s),
                  books := restoreStock (order.items order) (books s)\<rparr>"
    by auto
  have items: "order.items saved = order.items order" by (simp add: saved preSave_fields)
  have own: "oid order = orderId \<and> userId order = uid" using f by (auto simp: find_Some_iff)
  show "\<exists>order. find (\<lambda>doc. oid doc = orderId \<and> userId doc = uid) (orders s) = Some order
          \<and> orderStatus order \<notin> {delivered, cancelled}
          \<and> order.items saved = order.items order"
    using f st items by blast
  show "orderStatus saved = cancelled" by (simp add: saved preSave_fields)
  show "cancelledAt saved = Some t" by (simp add: saved preSave_fields)
  have "oid saved = orderId \<and> userId saved = uid" using own by (simp add: saved preSave_fields)
  then show "find (\<lambda>doc. oid doc = orderId \<and> userId doc = uid) (orders s') = Some saved"
    using find_replace [OF f, of saved orderId] by (simp add: s')
  show "books s' b =
      map_option (\<lambda>bk. bk\<lparr>stock := stock bk + orderedQuantity b (order.items saved)\<rparr>) (books s b)" for b
    by (simp add: s' items restoreStock_apply)
  show "carts s' = carts s" by (simp add: s')
qed

theorem cancelOrder_correct_witness:
  "cancelOrder 4 7 2000 examplePlacedDb = (Failure 404 ORDER_NOT_FOUND, examplePlacedDb)
   \<and> cancelOrder 3 7 3000 exampleCancelledDb = (Failure 400 INVALID_ORDER_STATUS, exampleCancelledDb)
   \<and> cancelOrder 3 7 2000 examplePlacedDb = (Success 200 exampleCancelled, exampleCancelledDb)
   \<and> orderStatus exampleCancelled = cancelled \<and> cancelledAt exampleCancelled = Some 2000
   \<and> map_option stock (books examplePlacedDb 11) = Some 3
   \<and> map_option stock (books exampleCancelledDb 11) = Some 5"
proof -
  note A = cancelOrder_correct [of examplePlacedDb 7 4 2000]
  note B = cancelOrder_correct [of exampleCancelledDb 7 3 3000]
  note C = cancelOrder_correct [of examplePlacedDb 7 3 2000]
  have "\<forall>doc \<in> set (orders examplePlacedDb). \<not> (oid doc = 7 \<and> userId doc = 4)"
    by (simp add: examplePlacedDb_def examplePlaced_def exampleOrder_def)
  then have a: "cancelOrder 4 7 2000 examplePlacedDb = (Failure 404 ORDER_NOT_FOUND, examplePlacedDb)"
    using A by blast
  have "find (\<lambda>doc. oid doc = 7 \<and> userId doc = 3) (orders exampleCancelledDb) = Some exampleCancelled
      \<and> orderStatus exampleCancelled \<in> {delivered, cancelled}"
    by (simp add: exampleCancelledDb_def exampleCancelled_def examplePlaced_def exampleOrder_def)
  then have b: "cancelOrder 3 7 3000 exampleCancelledDb = (Failure 400 INVALID_ORDER_STATUS, exampleCancelledDb)"
    using B by blast
  note c = example_cancelOrder
  have c1: "orderStatus exampleCancelled = cancelled" "cancelledAt exampleCancelled = Some 2000"
    using C c by blast+
  have "books exampleCancelledDb 11 =
      map_option (\<lambda>bk. bk\<lparr>stock := stock bk + orderedQuantity 11 (order.items exampleCancelled)\<rparr>)
        (books examplePlacedDb 11)"
    using C c by blast
  moreover have p: "map_option stock (books examplePlacedDb 11) = Some 3"
    by (simp add: examplePlacedDb_def exampleBooks_def incStock_apply)
  moreover have "orderedQuantity 11 (order.items exampleCancelled) = 2"
    by (simp add: orderedQuantity_def exampleCancelled_def examplePlaced_def exampleOrder_def)
  ultimately have c2: "map_option stock (books exampleCancelledDb 11) = Some 5"
    by (auto simp: map_option_case split: option.splits)
  from a b c c1 c2 p show ?thesis by simp
qed

lemma distinct_oid_eq:
  "distinct (map oid os) \<Longrightarrow> x \<in> set os \<Longrightarrow> y \<in> set os \<Longrightarrow> oid x = oid y \<Longrightarrow> x = y"
  by (auto simp: distinct_map inj_on_def)



lemma example_reachable: "reachable examplePlacedDb"
  by (rule reachable.create [OF reachable.initial example_createOrder]) (simp add: exampleDb_def)


section \<open>Order status transitions\<close>

lemma example_deliver:
  "updateOrderStatus 7 ''delivered'' 3000 examplePlacedDb = (Success 200 exampleDelivered, exampleDeliveredDb)"
proof -
  have m: "map_of validStatuses ''delivered'' = Some delivered" by (simp add: validStatuses_def)
  have f: "find (\<lambda>doc. oid doc = 7) (orders examplePlacedDb) = Some examplePlaced"
    by (simp add: examplePlacedDb_def examplePlaced_def exampleOrder_def)
  have v: "validateOrder (examplePlaced\<lparr>orderStatus := delivered, deliveredAt := Some 3000\<rparr>)"
    using example_valid by (simp add: validateOrder_def)
  have p: "preSave (examplePlaced\<lparr>orderStatus := delivered, deliveredAt := Some 3000\<rparr>) = exampleDelivered"
    by (simp add: preSave_def exampleDelivered_def examplePlaced_def)
  have sv: "save False 3000 (examplePlaced\<lparr>orderStatus := delivered, deliveredAt := Some 3000\<rparr>)
      (orders examplePlacedDb) = Some (exampleDelivered, [exampleDelivered])"
    by (simp add: save_def Let_def v p)
       (simp add: examplePlacedDb_def examplePlaced_def exampleOrder_def exampleDelivered_def)
  show ?thesis
    by (simp add: updateOrderStatus_def m f sv Let_def exampleDeliveredDb_def)
qed

lemma example_reopen:
  "updateOrderStatus 7 ''pending'' 4000 exampleDeliveredDb = (Success 200 exampleReopened, exampleReopenedDb)"
proof -
  have m: "map_of validStatuses ''pending'' = Some pending" by (simp add: validStatuses_def)
  have f: "find (\<lambda>doc. oid doc = 7) (orders exampleDeliveredDb) = Some exampleDelivered"
    by (simp add: exampleDeliveredDb_def exampleDelivered_def examplePlaced_def exampleOrder_def)
  have v: "validateOrder (exampleDelivered\<lparr>orderStatus := pending\<rparr>)"
    using example_valid by (simp add: validateOrder_def exampleDelivered_def)
  have p: "preSave (exampleDelivered\<lparr>orderStatus := pending\<rparr>) = exampleReopened"
    by (simp add: preSave_def exampleReopened_def exampleDelivered_def examplePlaced_def)
  have sv: "save False 4000 (exampleDelivered\<lparr>orderStatus := pending\<rparr>)
      (orders exampleDeliveredDb) = Some (exampleReopened, [exampleReopened])"
    by (simp add: save_def Let_def v p)
       (simp add: exampleDeliveredDb_def exampleDelivered_def examplePlaced_def exampleOrder_def exampleReopened_def)
  show ?thesis
    by (simp add: updateOrderStatus_def m f sv Let_def)
       (simp add: exampleReopenedDb_def exampleDeliveredDb_def)
qed

text \<open>
  C6 as stated fails: after \<^verbatim>\<open>createOrder\<close>, \<^verbatim>\<open>updateOrderStatus\<close> moves the
  order to delivered and then from delivered back to pending.
\<close>

theorem updateOrderStatus_backward_counterexample:
  "createOrder 3 exampleBody exampleEnv exampleDb = (Success 201 examplePlaced, examplePlacedDb)
   \<and> updateOrderStatus 7 ''delivered'' 3000 examplePlacedDb = (Success 200 exampleDelivered, exampleDeliveredDb)
   \<and> updateOrderStatus 7 ''pending'' 4000 exampleDeliveredDb = (Success 200 exampleReopened, exampleReopenedDb)
   \<and> map orderStatus (orders exampleDeliveredDb) = [delivered]
   \<and> map orderStatus (orders exampleReopenedDb) = [pending]
   \<and> \<not> specTransition delivered pending"
  by (simp add: example_createOrder example_deliver example_reopen)
     (simp add: exampleDeliveredDb_def exampleReopenedDb_def exampleDelivered_def exampleReopened_def
        specTransition_def)

lemma updateOrderStatus_sets_any:
  assumes f: "find (\<lambda>doc. oid doc = orderId) (orders s) = Some order"
    and m: "map_of validStatuses status = Some newStatus"
    and v: "validateOrder order"
  shows "\<exists>saved s'. updateOrderStatus orderId status t s = (Success 200 saved, s')
               \<and> orderStatus saved = newStatus
               \<and> find (\<lambda>doc. oid doc = orderId) (orders s') = Some saved"
proof -
  define order2 where "order2 =
    (if newStatus = delivered then order\<lparr>orderStatus := newStatus, deliveredAt := Some t\<rparr>
     else order\<lparr>orderStatus := newStatus\<rparr>)"
  define os where "os = map (\<lambda>other. if oid other = orderId then preSave order2 else other) (orders s)"
  have o: "oid order = orderId" using f by (auto simp: find_Some_iff)
  have o2: "oid order2 = orderId" "orderStatus order2 = newStatus"
    using o by (simp_all add: order2_def)
  have v2: "validateOrder order2" using v by (simp add: order2_def validateOrder_def)
  have sv: "save False t order2 (orders s) = Some (preSave order2, os)"
    using v2 o2 by (simp add: save_def Let_def preSave_fields os_def)
  have run: "updateOrderStatus orderId status t s = (Success 200 (preSave order2), s\<lparr>orders := os\<rparr>)"
    by (simp only: updateOrderStatus_def Let_def m f option.case)
       (simp only: order2_def [symmetric] sv option.case prod.case)
  have "find (\<lambda>doc. oid doc = orderId) os = Some (preSave order2)"
    unfolding os_def using o2 by (intro find_replace [OF f]) (simp_all add: preSave_fields)
  then show ?thesis using run o2 by (simp add: preSave_fields)
qed

lemma list_all2_replace:
  assumes "\<And>x. x \<in> set os \<Longrightarrow> P x (f x)"
  shows "list_all2 P os (map f os)"
  using assms by (simp add: list_all2_map2 list_all2_same)

text \<open>
  C6 (amended). In every reachable state: \<^verbatim>\<open>createOrder\<close> leaves the stored orders
  as they are or adds one order, with status confirmed; \<^verbatim>\<open>cancelOrder\<close> changes the
  status of an order only from a status other than delivered and cancelled, and only to
  cancelled; \<^verbatim>\<open>updateOrderStatus\<close> changes the status of no order but the addressed
  one, and sets that one to whichever of the six statuses is requested, whatever its
  current status.
\<close>

theorem orderStatus_transitions:
  assumes "reachable s"
  shows "(\<forall>uid body e r s'. createOrder uid body e s = (r, s') \<longrightarrow>
            orders s' = orders s
            \<or> (\<exists>saved. orders s' = orders s @ [saved] \<and> orderStatus saved = confirmed))
    \<and> (\<forall>uid orderId t r s'. cancelOrder uid orderId t s = (r, s') \<longrightarrow>
            list_all2 (\<lambda>old new. oid new = oid old
                 \<and> (orderStatus new = orderStatus old
                      \<or> (orderStatus old \<notin> {delivered, cancelled} \<and> orderStatus new = cancelled)))
              (orders s) (orders s'))
    \<and> (\<forall>orderId status t r s'. updateOrderStatus orderId status t s = (r, s') \<longrightarrow>
            list_all2 (\<lambda>old new. oid new = oid old
                 \<and> (orderStatus new = orderStatus old
                      \<or> (oid old = orderId \<and> map_of validStatuses status = Some (orderStatus new))))
              (orders s) (orders s'))
    \<and> (\<forall>orderId status t order newStatus.
            find (\<lambda>doc. oid doc = orderId) (orders s) = Some order
            \<and> map_of validStatuses status = Some newStatus \<longrightarrow>
            (\<exists>saved s'. updateOrderStatus orderId status t s = (Success 200 saved, s')
               \<and> orderStatus saved = newStatus
               \<and> find (\<lambda>doc. oid doc = orderId) (orders s') = Some saved))"
proof (intro conjI allI impI)
  fix uid body e r s'
  assume run: "createOrder uid body e s = (r, s')"
  from createOrder_cases [OF run]
  show "orders s' = orders s
      \<or> (\<exists>saved. orders s' = orders s @ [saved] \<and> orderStatus saved = confirmed)"
  proof (elim disjE exE conjE)
    fix st c assume "s' = s"
    then show ?thesis by simp
  next
    fix saved addr pm ois and c :: "book_id cart"
    assume sv: "save True (now e) (calculateOrderCosts noOptions (newOrder uid body e addr pm ois)) (orders s)
               = Some (saved, orders s @ [saved])"
      and s': "s' = s\<lparr>orders := orders s @ [saved],
                  books := (\<lambda>b. map_option (\<lambda>bk. bk\<lparr>stock := stock bk - cartQuantity b (cart.items c)\<rparr>)
                                  (books s b)),
                  carts := (carts s)(uid \<mapsto> \<lparr>cart.items = [], cart.total = 0\<rparr>)\<rparr>"
    from save_new_result [OF sv]
    have "orderStatus saved = confirmed"
      by (simp add: preSave_fields calculateOrderCosts_fields newOrder_def)
    then show ?thesis by (simp add: s')
  qed
next
  fix uid orderId t r s'
  assume run: "cancelOrder uid orderId t s = (r, s')"
  let ?P = "\<lambda>old new. oid new = oid old
                 \<and> (orderStatus new = orderStatus old
                      \<or> (orderStatus old \<notin> {delivered, cancelled} \<and> orderStatus new = cancelled))"
  have same: "list_all2 ?P (orders s) (orders s)" by (simp add: list_all2_same)
  have d: "distinct (map oid (orders s))"
    using reachable_ordersInv [OF assms] by (simp add: ordersInv_def)
  from cancelOrder_cases [OF run]
  show "list_all2 ?P (orders s) (orders s')"
  proof (elim disjE exE conjE)
    fix order saved
    assume f: "find (\<lambda>doc. oid doc = orderId \<and> userId doc = uid) (orders s) = Some order"
      and st: "orderStatus order \<notin> {delivered, cancelled}"
      and saved: "saved = preSave (order\<lparr>orderStatus := cancelled, cancelledAt := Some t\<rparr>)"
      and s': "s' = s\<lparr>orders := map (\<lambda>other. if oid other = orderId then saved else other) (orders s),
                  books := restoreStock (order.items order) (books s)\<rparr>"
    have mem: "order \<in> set (orders s)" and o: "oid order = orderId"
      using f by (auto simp: find_Some_iff in_set_conv_nth)
    have "?P x (if oid x = orderId then saved else x)" if "x \<in> set (orders s)" for x
    proof (cases "oid x = orderId")
      case True
      then have "x = order" using distinct_oid_eq [OF d that mem] o by simp
      then show ?thesis using st o by (simp add: saved preSave_fields)
    next
      case False
      then show ?thesis by simp
    qed
    then show ?thesis by (simp add: s' list_all2_replace)
  qed (use same in simp_all)
next
  fix orderId status t r s'
  assume run: "updateOrderStatus orderId status t s = (r, s')"
  let ?P = "\<lambda>old new. oid new = oid old
                 \<and> (orderStatus new = orderStatus old
                      \<or> (oid old = orderId \<and> map_of validStatuses status = Some (orderStatus new)))"
  have same: "list_all2 ?P (orders s) (orders s)" by (simp add: list_all2_same)
  from updateOrderStatus_cases [OF run]
  show "list_all2 ?P (orders s) (orders s')"
  proof (elim disjE exE conjE)
    fix order newStatus saved
    assume m: "map_of validStatuses status = Some newStatus"
      and f: "find (\<lambda>doc. oid doc = orderId) (orders s) = Some order"
      and saved: "saved = preSave (order\<lparr>orderStatus := newStatus,
                 deliveredAt := (if newStatus = delivered then Some t else deliveredAt order)\<rparr>)"
      and s': "s' = s\<lparr>orders := map (\<lambda>other. if oid other = orderId then saved else other) (orders s)\<rparr>"
    have o: "oid order = orderId" using f by (auto simp: find_Some_iff)
    have "?P x (if oid x = orderId then saved else x)" if "x \<in> set (orders s)" for x
      using o m by (simp add: saved preSave_fields)
    then show ?thesis by (simp add: s' list_all2_replace)
  qed (use same in simp_all)
next
  fix orderId status t order newStatus
  assume a: "find (\<lambda>doc. oid doc = orderId) (orders s) = Some order
            \<and> map_of validStatuses status = Some newStatus"
  then have "order \<in> set (orders s)" by (auto simp: find_Some_iff in_set_conv_nth)
  then have "validateOrder order"
    using reachable_ordersInv [OF assms] by (simp add: ordersInv_def)
  with a show "\<exists>saved s'. updateOrderStatus orderId status t s = (Success 200 saved, s')
               \<and> orderStatus saved = newStatus
               \<and> find (\<lambda>doc. oid doc = orderId) (orders s') = Some saved"
    using updateOrderStatus_sets_any [of orderId s order status newStatus t] by blast
qed

theorem orderStatus_transitions_witness:
  "reachable exampleDeliveredDb
   \<and> map orderStatus (orders exampleDeliveredDb) = [delivered]
   \<and> (\<exists>saved s'. updateOrderStatus 7 ''pending'' 4000 exampleDeliveredDb = (Success 200 saved, s')
         \<and> orderStatus saved = pending
         \<and> find (\<lambda>doc. oid doc = 7) (orders s') = Some saved)"
proof -
  have r: "reachable exampleDeliveredDb"
    by (rule reachable.update [OF example_reachable example_deliver])
  have f: "find (\<lambda>doc. oid doc = 7) (orders exampleDeliveredDb) = Some exampleDelivered"
    by (simp add: exampleDeliveredDb_def exampleDelivered_def examplePlaced_def exampleOrder_def)
  have m: "map_of validStatuses ''pending'' = Some pending" by (simp add: validStatuses_def)
  have st: "map orderStatus (orders exampleDeliveredDb) = [delivered]"
    by (simp add: exampleDeliveredDb_def exampleDelivered_def)
  from orderStatus_transitions [OF r] f m
  have "\<exists>saved s'. updateOrderStatus 7 ''pending'' 4000 exampleDeliveredDb = (Success 200 saved, s')
         \<and> orderStatus saved = pending
         \<and> find (\<lambda>doc. oid doc = 7) (orders s') = Some saved"
    by blast
  then show ?thesis using r st by blast
qed

section \<open>Failures of createOrder\<close>

lemma createOrder_failure_keeps_db:
  "createOrder uid body e s = (Failure st c, s') \<Longrightarrow> s' = s"
  using createOrder_cases [of uid body e s "Failure st c" s'] by auto

lemma createOrder_never_BOOK_NOT_FOUND:
  "fst (createOrder uid body e s) \<noteq> Failure st BOOK_NOT_FOUND"
proof
  assume a: "fst (createOrder uid body e s) = Failure st BOOK_NOT_FOUND"
  obtain r s' where run: "createOrder uid body e s = (r, s')" by (cases "createOrder uid body e s")
  then have r: "r = Failure st BOOK_NOT_FOUND" using a by simp
  have nf: "validateStock (books s) (map (populateItem (books s)) xs) \<noteq> Some (st, BOOK_NOT_FOUND)" for xs
    by (rule validateStock_never_BOOK_NOT_FOUND)
  show False
  proof (cases "body_shippingAddress body")
    case None
    then show ?thesis using run r by (auto simp: createOrder_def)
  next
    case (Some addr)
    note addr = this
    show ?thesis
    proof (cases "body_paymentMethod body")
      case None
      then show ?thesis using run r addr by (auto simp: createOrder_def)
    next
      case (Some pm)
      note pm = this
      show ?thesis
      proof (cases "carts s uid")
        case None
        then show ?thesis using run r addr pm by (auto simp: createOrder_def split: if_splits)
      next
        case (Some c)
        show ?thesis
        proof (cases "validateStock (books s) (map (populateItem (books s)) (cart.items c))")
          case None
          then show ?thesis using run r addr pm Some
            by (auto simp: createOrder_def populate_def split: if_splits option.splits prod.splits bool.splits)
        next
          case (Some err)
          then have "err \<noteq> (st, BOOK_NOT_FOUND)" using nf [of "cart.items c"] by auto
          then show ?thesis using run r addr pm Some \<open>carts s uid = Some c\<close>
            by (cases err) (auto simp: createOrder_def populate_def split: if_splits)
        qed
      qed
    qed
  qed
qed

lemma createOrder_EMPTY_CART:
  assumes "body_shippingAddress body = Some addr" and "body_paymentMethod body = Some pm" and "pm \<noteq> []"
    and "carts s uid = None \<or> (\<exists>c. carts s uid = Some c \<and> cart.items c = [])"
  shows "createOrder uid body e s = (Failure 400 EMPTY_CART, s)"
  using assms by (auto simp: createOrder_def populate_def)

lemma validateStock_short:
  assumes "\<forall>item \<in> set xs. bs (cartItem.bookId item) \<noteq> None"
    and "\<exists>item \<in> set xs. \<exists>bk. bs (cartItem.bookId item) = Some bk \<and> stock bk < cartItem.quantity item"
  shows "validateStock bs (map (populateItem bs) xs) = Some (400, INSUFFICIENT_STOCK)"
  using assms
  by (induction xs) (auto simp: populateItem_def split: option.splits)

lemma createOrder_INSUFFICIENT_STOCK:
  assumes "body_shippingAddress body = Some addr" and "body_paymentMethod body = Some pm" and "pm \<noteq> []"
    and "carts s uid = Some c"
    and "\<forall>item \<in> set (cart.items c). books s (cartItem.bookId item) \<noteq> None"
    and "\<exists>item \<in> set (cart.items c). \<exists>bk. books s (cartItem.bookId item) = Some bk
           \<and> stock bk < cartItem.quantity item"
  shows "createOrder uid body e s = (Failure 400 INSUFFICIENT_STOCK, s)"
proof -
  have "cart.items c \<noteq> []" using assms(6) by auto
  then show ?thesis
    using assms(1-4) validateStock_short [OF assms(5,6)]
    by (simp add: createOrder_def populate_def)
qed

text \<open>
  C4. A cart line whose book has been deleted: the populated reference is null, reading
  its identifier throws, and the handler answers with the internal error, not with
  \<^verbatim>\<open>BOOK_NOT_FOUND\<close>; the database stays as it was.
\<close>

theorem createOrder_deleted_book:
  "carts exampleStaleDb 3 = Some exampleCart
   \<and> books exampleStaleDb 12 = None
   \<and> createOrder 3 exampleBody exampleEnv exampleStaleDb
       = (Failure 500 INTERNAL_SERVER_ERROR, exampleStaleDb)"
proof -
  have pop: "map (populateItem (books exampleStaleDb)) (cart.items exampleCart) =
      [\<lparr>cartItem.bookId = Some (11, \<lparr>book.title = ''T1'', book.author = ''A1'', stock = 5\<rparr>),
        cartItem.quantity = 2, cartItem.price = 10\<rparr>,
       \<lparr>cartItem.bookId = None, cartItem.quantity = 1, cartItem.price = 15\<rparr>]"
    by (simp add: populateItem_def exampleStaleDb_def exampleDb_def exampleBooks_def exampleCart_def)
  have b: "body_shippingAddress exampleBody = Some exampleAddressInput"
    "body_paymentMethod exampleBody = Some ''paypal''"
    by (simp_all add: exampleBody_def)
  have c: "carts exampleStaleDb 3 = Some exampleCart"
    "books exampleStaleDb 11 = Some \<lparr>book.title = ''T1'', book.author = ''A1'', stock = 5\<rparr>"
    "books exampleStaleDb 12 = None"
    by (simp_all add: exampleStaleDb_def exampleDb_def exampleBooks_def)
  have ne: "cart.items exampleCart \<noteq> []" by (simp add: exampleCart_def)
  have "createOrder 3 exampleBody exampleEnv exampleStaleDb
       = (Failure 500 INTERNAL_SERVER_ERROR, exampleStaleDb)"
    by (simp add: createOrder_def populate_def b c ne pop)
  then show ?thesis using c by simp
qed

end
